theory Spec2Isabelle
  imports Complex_Main
begin

section \<open>Strings and the tokenizer\<close>

text \<open>
  A Python \<open>str\<close> is a sequence of Unicode code points, so a message is a list of code
  point numbers. \<open>str\<close> turns an ASCII literal into such a list.
\<close>

type_synonym codepoint = nat
type_synonym pystr = "codepoint list"

definition str :: "string \<Rightarrow> pystr" where
  "str s = map of_char s"

text \<open>
  The class \<open>\s\<close> of Python's \<open>re\<close> on a \<open>str\<close> pattern: the code points for which
  \<open>str.isspace\<close> holds (U+0009..U+000D, U+001C..U+0020, U+0085, U+00A0, U+1680,
  U+2000..U+200A, U+2028, U+2029, U+202F, U+205F, U+3000). \<open>\S\<close> is its complement.
\<close>

definition is_space :: "codepoint \<Rightarrow> bool" where
  "is_space c \<longleftrightarrow>
     (9 \<le> c \<and> c \<le> 13) \<or> (28 \<le> c \<and> c \<le> 32) \<or> c = 133 \<or> c = 160 \<or> c = 5760 \<or>
     (8192 \<le> c \<and> c \<le> 8202) \<or> c = 8232 \<or> c = 8233 \<or> c = 8239 \<or> c = 8287 \<or> c = 12288"

text \<open>
  \<open>re.findall(r"\S+\s*", message)\<close>: the scan starts at the left end. Where the pattern
  does not match (the next code point is whitespace) the scan moves on by one code point;
  where it matches, \<open>\S+\<close> and \<open>\s*\<close> are greedy and take the whole run of non-whitespace
  and the whole run of whitespace after it, the match is emitted and the scan goes on
  behind it.
\<close>

function findall_words :: "pystr \<Rightarrow> pystr list" where
  "findall_words [] = []"
| "findall_words (c # cs) =
     (if is_space c then findall_words cs
      else (let word = c # takeWhile (\<lambda>x. \<not> is_space x) cs;
                rest = dropWhile (\<lambda>x. \<not> is_space x) cs;
                spaces = takeWhile is_space rest
            in (word @ spaces) # findall_words (dropWhile is_space rest)))"
  by pat_completeness auto
termination
proof (relation "measure length")
  show "wf (measure length)" by simp
next
  fix c :: codepoint and cs :: pystr
  show "(cs, c # cs) \<in> measure length" by simp
next
  fix c :: codepoint and cs :: pystr and x xa xb
  assume "xa = dropWhile (\<lambda>x. \<not> is_space x) cs"
  moreover have "length (dropWhile is_space (dropWhile (\<lambda>x. \<not> is_space x) cs)) \<le> length cs"
    by (meson length_dropWhile_le le_trans)
  ultimately show "(dropWhile is_space xa, c # cs) \<in> measure length"
    by simp
qed

definition tokenize :: "pystr \<Rightarrow> string \<Rightarrow> pystr list" where
  "tokenize msg md = (if md = ''char'' then map (\<lambda>c. [c]) msg else findall_words msg)"

text \<open>
  The shape \<open>\S+\s*\<close> of one token, as a test on a string: a non-empty run of
  non-whitespace, then only whitespace.
\<close>

definition word_token :: "pystr \<Rightarrow> bool" where
  "word_token t \<longleftrightarrow>
     takeWhile (\<lambda>x. \<not> is_space x) t \<noteq> [] \<and> list_all is_space (dropWhile (\<lambda>x. \<not> is_space x) t)"

section \<open>Configuration and toolkit state\<close>

text \<open>
  The parsed command line (\<open>argparse.Namespace\<close>). The two float options are rationals:
  the arithmetic on them is the exact one, without the rounding of IEEE doubles.
\<close>

record arguments =
  message :: pystr
  mode :: string
  speed :: rat
  font_size :: int
  color :: string
  background :: string
  exit_after :: rat
  reveal_position :: string
  all_monitors :: bool

text \<open>Python's \<open>int(x)\<close> on a float: truncation towards zero.\<close>

definition py_int :: "rat \<Rightarrow> int" where
  "py_int x = (if x < 0 then - \<lfloor>- x\<rfloor> else \<lfloor>x\<rfloor>)"

datatype align = Align_FILL | Align_CENTER
datatype justification = Justification_LEFT | Justification_CENTER
datatype edge = Edge_LEFT | Edge_RIGHT | Edge_TOP | Edge_BOTTOM
datatype callback = Tick_cb | Exit_cb

record gtk_label =
  label_text :: pystr
  wrap :: bool
  halign :: align
  valign :: align
  xalign :: rat
  justify :: justification
  size_request :: "int \<times> int"

record monitor =
  geometry :: "int \<times> int"

datatype layer = Layer_OVERLAY
datatype keyboard_mode = KeyboardMode_ON_DEMAND

record layer_surface =
  namespace :: string
  surface_layer :: layer
  layer_monitor :: monitor
  keyboard :: keyboard_mode
  exclusive_zone :: int
  anchor :: "edge list"
  margin :: "(edge \<times> int) list"

text \<open>
  What the program asks of its surroundings: whether the \<open>Gtk4LayerShell\<close> module was
  imported, what \<open>Gtk4LayerShell.is_layer_window\<close> answers for a window (by the window's
  number), the monitors of the default display (\<open>None\<close> when there is no display; an item
  may be \<open>None\<close>), and the pixel width Pango measures for a text.
\<close>

record env =
  gtk4_layer_shell :: bool
  is_layer_window :: "nat \<Rightarrow> bool"
  display :: "monitor option list option"
  pixel_width :: "pystr \<Rightarrow> int"

text \<open>
  A \<open>MessageWindow\<close>. \<open>timeouts\<close> lists the calls of \<open>GLib.timeout_add\<close> the window has
  made (period in milliseconds, callback), \<open>presented\<close> counts the calls of \<open>present\<close>.
\<close>

record window =
  wid :: nat
  args :: arguments
  tokens :: "pystr list"
  index :: nat
  current_text :: pystr
  exit_scheduled :: bool
  layer_shell_enabled :: bool
  decorated :: bool
  resizable :: bool
  default_size :: "(int \<times> int) option"
  window_size_request :: "int \<times> int"
  surface :: "layer_surface option"
  label :: gtk_label
  timeouts :: "(int \<times> callback) list"
  presented :: nat

definition timeout_add :: "int \<Rightarrow> callback \<Rightarrow> window \<Rightarrow> window" where
  "timeout_add interval cb w = w\<lparr>timeouts := timeouts w @ [(interval, cb)]\<rparr>"

section \<open>The reveal controller\<close>

definition setup_layer_shell :: "env \<Rightarrow> monitor \<Rightarrow> window \<Rightarrow> window \<times> bool" where
  "setup_layer_shell e mon w =
     (if \<not> is_layer_window e (wid w) then (w, False)
      else (w\<lparr>default_size := Some (geometry mon),
               window_size_request := geometry mon,
               surface := Some \<lparr>namespace = ''autheos_message'',
                 surface_layer = Layer_OVERLAY, layer_monitor = mon,
                 keyboard = KeyboardMode_ON_DEMAND, exclusive_zone = 0,
                 anchor = [Edge_LEFT, Edge_RIGHT, Edge_TOP, Edge_BOTTOM],
                 margin = map (\<lambda>ed. (ed, 0)) [Edge_LEFT, Edge_RIGHT, Edge_TOP, Edge_BOTTOM]\<rparr>\<rparr>,
            True))"

definition reserve_final_width :: "env \<Rightarrow> window \<Rightarrow> window" where
  "reserve_final_width e w =
     (let width = pixel_width e (message (args w))
      in if width > 0 then w\<lparr>label := (label w)\<lparr>size_request := (width, - 1)\<rparr>\<rparr> else w)"

definition apply_reveal_position :: "env \<Rightarrow> bool \<Rightarrow> window \<Rightarrow> window" where
  "apply_reveal_position e is_animation_done w =
     (let md = reveal_position (args w) in
      if md = ''center'' then
        w\<lparr>label := (label w)\<lparr>halign := Align_CENTER, xalign := 1 / 2,
             justify := Justification_CENTER, size_request := (- 1, - 1)\<rparr>\<rparr>
      else if md = ''left'' then
        w\<lparr>label := (label w)\<lparr>halign := Align_CENTER, xalign := 0,
             justify := Justification_LEFT, size_request := (- 1, - 1)\<rparr>\<rparr>
      else if is_animation_done then
        w\<lparr>label := (label w)\<lparr>halign := Align_CENTER, xalign := 1 / 2,
             justify := Justification_CENTER, size_request := (- 1, - 1)\<rparr>\<rparr>
      else
        reserve_final_width e
          (w\<lparr>label := (label w)\<lparr>halign := Align_CENTER, xalign := 0,
             justify := Justification_LEFT\<rparr>\<rparr>))"

definition build_ui :: "env \<Rightarrow> window \<Rightarrow> window" where
  "build_ui e w =
     apply_reveal_position e False
       (w\<lparr>label := \<lparr>label_text = [], wrap = True, halign = Align_FILL, valign = Align_CENTER,
            xalign = 1 / 2, justify = Justification_LEFT, size_request = (- 1, - 1)\<rparr>\<rparr>)"

text \<open>
  \<open>MessageWindow.__init__\<close>; \<open>i\<close> is the number the new window gets. The label exists
  from \<open>_build_ui\<close> on, which replaces the value the field starts with here. The style
  sheet of \<open>_install_css\<close> and the key controller of \<open>_attach_keys\<close> are not part of the
  state.
\<close>

definition new_window :: "env \<Rightarrow> nat \<Rightarrow> arguments \<Rightarrow> monitor option \<Rightarrow> window" where
  "new_window e i a mon =
     (let w0 = \<lparr>wid = i, args = a, tokens = tokenize (message a) (mode a), index = 0,
                current_text = [], exit_scheduled = False, layer_shell_enabled = False,
                decorated = False, resizable = False, default_size = None,
                window_size_request = (- 1, - 1), surface = None,
                label = \<lparr>label_text = [], wrap = False, halign = Align_FILL,
                  valign = Align_FILL, xalign = 1 / 2, justify = Justification_LEFT,
                  size_request = (- 1, - 1)\<rparr>,
                timeouts = [], presented = 0\<rparr>;
          w1 = (case mon of
                  None \<Rightarrow> w0
                | Some m \<Rightarrow>
                    if gtk4_layer_shell e
                    then (case setup_layer_shell e m w0 of
                            (w', ok) \<Rightarrow> w'\<lparr>layer_shell_enabled := ok\<rparr>)
                    else w0)
      in build_ui e w1)"

definition schedule_exit_if_needed :: "window \<Rightarrow> window" where
  "schedule_exit_if_needed w =
     (if exit_after (args w) \<le> 0 \<or> exit_scheduled w then w
      else timeout_add (py_int (exit_after (args w) * 1000)) Exit_cb (w\<lparr>exit_scheduled := True\<rparr>))"

definition start_animation :: "env \<Rightarrow> window \<Rightarrow> window" where
  "start_animation e w =
     (if tokens w = [] then schedule_exit_if_needed (apply_reveal_position e True w)
      else (let interval_ms = max 1 (py_int (1000 / max (speed (args w)) (1 / 100)))
            in timeout_add interval_ms Tick_cb w))"

text \<open>\<open>_tick\<close> returns the new state and what the callback returns to the timer.\<close>

definition tick :: "env \<Rightarrow> window \<Rightarrow> window \<times> bool" where
  "tick e w =
     (if index w \<ge> length (tokens w)
      then (schedule_exit_if_needed (apply_reveal_position e True w), False)
      else (let w1 = w\<lparr>current_text := current_text w @ tokens w ! index w\<rparr>;
                w2 = w1\<lparr>index := index w1 + 1\<rparr>;
                w3 = w2\<lparr>label := (label w2)\<lparr>label_text := current_text w2\<rparr>\<rparr>
            in if index w3 \<ge> length (tokens w3)
               then (schedule_exit_if_needed (apply_reveal_position e True w3), False)
               else (w3, True)))"

text \<open>
  A recurring GLib timeout calls its callback again and again until the callback returns
  \<open>False\<close>. \<open>run_timer\<close> is the list of the window's states after each call of \<open>tick\<close>.
\<close>

function run_timer :: "env \<Rightarrow> window \<Rightarrow> window list" where
  "run_timer e w =
     (case tick e w of (w', again) \<Rightarrow> if again then w' # run_timer e w' else [w'])"
  by pat_completeness auto
termination
proof (relation "measure (\<lambda>(e, w). length (tokens w) - index w)")
  show "wf (measure (\<lambda>(e, w). length (tokens w) - index w))" by simp
next
  fix e :: env and w w' :: window and again :: bool
  assume "(w', again) = tick e w" and "again"
  then have "index w < length (tokens w) \<and> tokens w' = tokens w \<and> index w' = Suc (index w)"
    by (auto simp: tick_def Let_def split: if_splits)
  then show "((e, w'), (e, w)) \<in> measure (\<lambda>(e, w). length (tokens w) - index w)"
    by auto
qed

text \<open>
  The ticks of a window once the main loop runs: those of the recurring timer, when the
  window has registered one.
\<close>

definition tick_trace :: "env \<Rightarrow> window \<Rightarrow> window list" where
  "tick_trace e w = (if list_ex (\<lambda>t. snd t = Tick_cb) (timeouts w) then run_timer e w else [])"

fun ticks :: "nat \<Rightarrow> env \<Rightarrow> window \<Rightarrow> window" where
  "ticks 0 e w = w"
| "ticks (Suc k) e w = ticks k e (fst (tick e w))"




text \<open>The \<open>_exit\<close> timeouts among the timeouts a window has registered.\<close>

definition exit_timeouts :: "window \<Rightarrow> (int \<times> callback) list" where
  "exit_timeouts w = filter (\<lambda>t. snd t = Exit_cb) (timeouts w)"

section \<open>The application\<close>

record app =
  app_args :: arguments
  windows :: "window list"
  animation_started :: bool
  next_wid :: nat
  destroyed :: "nat list"
  stderr :: "string list"
  quit_requested :: bool


definition present :: "window \<Rightarrow> window" where
  "present w = w\<lparr>presented := presented w + 1\<rparr>"

text \<open>The loop over the monitors in \<open>_build_windows\<close>.\<close>

fun monitor_loop :: "env \<Rightarrow> monitor option list \<Rightarrow> app \<Rightarrow> app" where
  "monitor_loop e [] a = a"
| "monitor_loop e (None # ms) a = monitor_loop e ms a"
| "monitor_loop e (Some m # ms) a =
     (let w = new_window e (next_wid a) (app_args a) (Some m);
          a' = a\<lparr>next_wid := Suc (next_wid a)\<rparr>
      in if \<not> layer_shell_enabled w
         then a'\<lparr>destroyed := destroyed a' @ [wid w] @ map wid (windows a'),
                 windows := [],
                 stderr := stderr a' @ [''Warning: Layer-shell init failed, falling back to one monitor. Try starting with LD_PRELOAD=libgtk4-layer-shell.so.0'']\<rparr>
         else monitor_loop e ms (a'\<lparr>windows := windows a' @ [w]\<rparr>))"

definition build_windows :: "env \<Rightarrow> app \<Rightarrow> app" where
  "build_windows e a =
     (if windows a \<noteq> [] then a
      else (let a1 = (if all_monitors (app_args a) \<and> \<not> gtk4_layer_shell e
                      then a\<lparr>stderr := stderr a @ [''Warning: gtk4-layer-shell not available, falling back to one monitor.'']\<rparr>
                      else a);
                a2 = (if all_monitors (app_args a1) \<and> gtk4_layer_shell e
                      then (case display e of
                              None \<Rightarrow> a1
                            | Some monitors \<Rightarrow> monitor_loop e monitors a1)
                      else a1)
            in if windows a2 = []
               then a2\<lparr>windows := windows a2 @ [new_window e (next_wid a2) (app_args a2) None],
                       next_wid := Suc (next_wid a2)\<rparr>
               else a2))"


text \<open>\<open>MessageApp.__init__\<close>.\<close>

definition new_app :: "arguments \<Rightarrow> app" where
  "new_app a = \<lparr>app_args = a, windows = [], animation_started = False, next_wid = 0,
                destroyed = [], stderr = [], quit_requested = False\<rparr>"

text \<open>
  \<open>parse_args\<close> on a command line that gives only the message: every option at its
  default.
\<close>

definition default_args :: "pystr \<Rightarrow> arguments" where
  "default_args msg =
     \<lparr>message = msg, mode = ''char'', speed = 15, font_size = 72, color = ''#ffffff'',
      background = ''rgba(0, 0, 0, 0.0)'', exit_after = 1,
      reveal_position = ''left-to-center'', all_monitors = True\<rparr>"

text \<open>
  Sample surroundings for concrete runs: the layer shell is loaded, the windows numbered
  below \<open>n\<close> become layer windows, the display has the monitors \<open>ms\<close>, and a text is as
  wide as 40 pixels for each of its code points other than U+200B (zero width space).
\<close>

definition sample_env :: "nat \<Rightarrow> monitor option list \<Rightarrow> env" where
  "sample_env n ms =
     \<lparr>gtk4_layer_shell = True, is_layer_window = (\<lambda>i. i < n), display = Some ms,
      pixel_width = (\<lambda>s. 40 * int (length (filter (\<lambda>c. c \<noteq> 8203) s)))\<rparr>"


section \<open>Properties of the tokenizer\<close>

lemma concat_findall_words: "concat (findall_words m) = dropWhile is_space m"
proof (induction m rule: findall_words.induct)
  case 1
  show ?case by simp
next
  case (2 c cs)
  show ?case
  proof (cases "is_space c")
    case True
    with 2 show ?thesis by simp
  next
    case False
    let ?rest = "dropWhile (\<lambda>x. \<not> is_space x) cs"
    have "concat (findall_words (dropWhile is_space ?rest)) = dropWhile is_space ?rest"
      using 2(2)[OF False refl refl refl] by simp
    with False show ?thesis by (simp add: Let_def)
  qed
qed

lemma word_token_append:
  assumes "u \<noteq> []" and "\<forall>c\<in>set u. \<not> is_space c" and "\<forall>c\<in>set v. is_space c"
  shows "word_token (u @ v)"
proof -
  have tv: "takeWhile (\<lambda>x. \<not> is_space x) v = []" using assms(3) by (cases v) auto
  have dv: "dropWhile (\<lambda>x. \<not> is_space x) v = v" using assms(3) by (cases v) auto
  have "takeWhile (\<lambda>x. \<not> is_space x) (u @ v) = u"
    using assms(2) tv by (simp add: takeWhile_append2)
  moreover have "dropWhile (\<lambda>x. \<not> is_space x) (u @ v) = v"
    using assms(2) dv by (simp add: dropWhile_append2)
  ultimately show ?thesis
    unfolding word_token_def list_all_iff using assms(1,3) by simp
qed

lemma word_token_parts:
  assumes "word_token t"
  shows "\<exists>u v. t = u @ v \<and> u \<noteq> [] \<and> (\<forall>c\<in>set u. \<not> is_space c) \<and> (\<forall>c\<in>set v. is_space c)"
proof (intro exI conjI)
  show "t = takeWhile (\<lambda>x. \<not> is_space x) t @ dropWhile (\<lambda>x. \<not> is_space x) t" by simp
  show "takeWhile (\<lambda>x. \<not> is_space x) t \<noteq> []" using assms unfolding word_token_def by blast
  show "\<forall>c\<in>set (takeWhile (\<lambda>x. \<not> is_space x) t). \<not> is_space c"
    by (blast dest: set_takeWhileD)
  show "\<forall>c\<in>set (dropWhile (\<lambda>x. \<not> is_space x) t). is_space c"
    using assms unfolding word_token_def list_all_iff by blast
qed

lemma word_token_match:
  assumes "\<not> is_space c"
  shows "word_token ((c # takeWhile (\<lambda>x. \<not> is_space x) cs) @ takeWhile is_space r)"
proof (rule word_token_append)
  show "c # takeWhile (\<lambda>x. \<not> is_space x) cs \<noteq> []" by simp
  show "\<forall>x\<in>set (c # takeWhile (\<lambda>x. \<not> is_space x) cs). \<not> is_space x"
    using assms by (auto dest: set_takeWhileD)
  show "\<forall>x\<in>set (takeWhile is_space r). is_space x"
    by (blast dest: set_takeWhileD)
qed

lemma findall_words_word_token: "t \<in> set (findall_words m) \<Longrightarrow> word_token t"
proof (induction m rule: findall_words.induct)
  case 1
  then show ?case by simp
next
  case (2 c cs)
  show ?case
  proof (cases "is_space c")
    case True
    with 2 show ?thesis by simp
  next
    case False
    let ?rest = "dropWhile (\<lambda>x. \<not> is_space x) cs"
    from 2(3) False
    consider "t = (c # takeWhile (\<lambda>x. \<not> is_space x) cs) @ takeWhile is_space ?rest"
      | "t \<in> set (findall_words (dropWhile is_space ?rest))"
      by (auto simp: Let_def)
    then show ?thesis
    proof cases
      case 1
      then show ?thesis using word_token_match[OF False] by simp
    next
      case 2
      then show ?thesis using "2.IH"(2)[OF False refl refl refl] by simp
    qed
  qed
qed


lemma tokenize_char_concat: "concat (tokenize msg ''char'') = msg"
  by (induction msg) (simp_all add: tokenize_def)

lemma tokenize_word_concat: "concat (tokenize msg ''word'') = dropWhile is_space msg"
  by (simp add: tokenize_def concat_findall_words)

lemma dropWhile_eq_self_iff: "dropWhile P xs = xs \<longleftrightarrow> takeWhile P xs = []"
proof
  assume "dropWhile P xs = xs"
  then have "takeWhile P xs @ xs = xs"
    using takeWhile_dropWhile_id[of P xs] by simp
  then show "takeWhile P xs = []" by simp
next
  assume "takeWhile P xs = []"
  then show "dropWhile P xs = xs"
    using takeWhile_dropWhile_id[of P xs] by simp
qed

lemma tokenize_hi_there: "tokenize (str ''hi there'') ''word'' = [str ''hi '', str ''there'']"
  by (simp add: tokenize_def str_def is_space_def)

lemma tokenize_hi: "tokenize (str ''hi'') ''char'' = [str ''h'', str ''i'']"
  by (simp add: tokenize_def str_def)

text \<open>
  C1 (as amended). In char mode the concatenation of the tokens is the message. In word
  mode it is the message without its leading whitespace, so it is the message exactly
  when the message does not begin with a whitespace code point.
\<close>

theorem tokenize_concat:
  "concat (tokenize msg ''char'') = msg
   \<and> concat (tokenize msg ''word'') = dropWhile is_space msg
   \<and> (concat (tokenize msg ''word'') = msg \<longleftrightarrow> takeWhile is_space msg = [])"
  by (simp only: tokenize_char_concat tokenize_word_concat dropWhile_eq_self_iff)

theorem tokenize_concat_witness:
  "concat (tokenize (str ''hi there'') ''char'') = str ''hi there''
   \<and> concat (tokenize (str ''hi there'') ''word'') = str ''hi there''
   \<and> takeWhile is_space (str ''hi there'') = []"
proof -
  have "takeWhile is_space (str ''hi there'') = []"
    by (simp add: str_def is_space_def)
  with tokenize_concat[of "str ''hi there''"] show ?thesis by blast
qed

text \<open>
  C1 as stated fails in word mode: the leading blank of \<open>" hi"\<close> is in no token.
\<close>

theorem tokenize_concat_counterexample:
  "concat (tokenize (str '' hi'') ''word'') \<noteq> str '' hi''"
  by (simp add: tokenize_def str_def is_space_def)

text \<open>
  C8. In word mode every token is a non-empty run of non-whitespace followed by a run of
  whitespace (possibly empty); the tokens lie in the message from left to right, one
  after the other without overlap, behind the leading whitespace;
  \<open>tokenize("hi there", "word") == ["hi ", "there"]\<close>. In char mode there is one token per
  code point, and \<open>tokenize("hi", "char") == ["h", "i"]\<close>.
\<close>

theorem tokenize_shape:
  "(\<forall>t\<in>set (tokenize msg ''word'').
      word_token t \<and>
      (\<exists>u v. t = u @ v \<and> u \<noteq> [] \<and> (\<forall>c\<in>set u. \<not> is_space c) \<and> (\<forall>c\<in>set v. is_space c)))
   \<and> takeWhile is_space msg @ concat (tokenize msg ''word'') = msg
   \<and> tokenize (str ''hi there'') ''word'' = [str ''hi '', str ''there'']
   \<and> tokenize msg ''char'' = map (\<lambda>c. [c]) msg
   \<and> tokenize (str ''hi'') ''char'' = [str ''h'', str ''i'']"
proof (intro conjI ballI)
  fix t assume "t \<in> set (tokenize msg ''word'')"
  then have "t \<in> set (findall_words msg)" by (simp add: tokenize_def)
  then show "word_token t" by (rule findall_words_word_token)
  then show "\<exists>u v. t = u @ v \<and> u \<noteq> [] \<and> (\<forall>c\<in>set u. \<not> is_space c) \<and> (\<forall>c\<in>set v. is_space c)"
    by (rule word_token_parts)
next
  show "takeWhile is_space msg @ concat (tokenize msg ''word'') = msg"
    by (simp add: tokenize_word_concat)
next
  show "tokenize (str ''hi there'') ''word'' = [str ''hi '', str ''there'']"
    by (rule tokenize_hi_there)
next
  show "tokenize msg ''char'' = map (\<lambda>c. [c]) msg" by (simp add: tokenize_def)
next
  show "tokenize (str ''hi'') ''char'' = [str ''h'', str ''i'']" by (rule tokenize_hi)
qed

theorem tokenize_shape_witness:
  "str ''hi '' \<in> set (tokenize (str ''hi there'') ''word'')
   \<and> word_token (str ''hi '')
   \<and> (\<exists>u v. str ''hi '' = u @ v \<and> u \<noteq> [] \<and> (\<forall>c\<in>set u. \<not> is_space c) \<and> (\<forall>c\<in>set v. is_space c))"
proof -
  have mem: "str ''hi '' \<in> set (tokenize (str ''hi there'') ''word'')"
    by (simp add: tokenize_hi_there)
  with tokenize_shape[of "str ''hi there''"] show ?thesis by blast
qed

section \<open>Properties of the reveal controller\<close>

declare run_timer.simps [simp del]

lemma timeout_add_fields [simp]:
  "tokens (timeout_add n cb w) = tokens w"
  "index (timeout_add n cb w) = index w"
  "current_text (timeout_add n cb w) = current_text w"
  "label (timeout_add n cb w) = label w"
  "args (timeout_add n cb w) = args w"
  "exit_scheduled (timeout_add n cb w) = exit_scheduled w"
  "timeouts (timeout_add n cb w) = timeouts w @ [(n, cb)]"
  by (simp_all add: timeout_add_def)

lemma reserve_final_width_fields [simp]:
  "tokens (reserve_final_width e w) = tokens w"
  "index (reserve_final_width e w) = index w"
  "current_text (reserve_final_width e w) = current_text w"
  "args (reserve_final_width e w) = args w"
  "exit_scheduled (reserve_final_width e w) = exit_scheduled w"
  "timeouts (reserve_final_width e w) = timeouts w"
  "wid (reserve_final_width e w) = wid w"
  "layer_shell_enabled (reserve_final_width e w) = layer_shell_enabled w"
  "presented (reserve_final_width e w) = presented w"
  "surface (reserve_final_width e w) = surface w"
  "label_text (label (reserve_final_width e w)) = label_text (label w)"
  by (simp_all add: reserve_final_width_def Let_def)

lemma apply_reveal_position_fields [simp]:
  "tokens (apply_reveal_position e d w) = tokens w"
  "index (apply_reveal_position e d w) = index w"
  "current_text (apply_reveal_position e d w) = current_text w"
  "args (apply_reveal_position e d w) = args w"
  "exit_scheduled (apply_reveal_position e d w) = exit_scheduled w"
  "timeouts (apply_reveal_position e d w) = timeouts w"
  "wid (apply_reveal_position e d w) = wid w"
  "layer_shell_enabled (apply_reveal_position e d w) = layer_shell_enabled w"
  "presented (apply_reveal_position e d w) = presented w"
  "surface (apply_reveal_position e d w) = surface w"
  "label_text (label (apply_reveal_position e d w)) = label_text (label w)"
  by (simp_all add: apply_reveal_position_def Let_def)

lemma schedule_exit_if_needed_fields [simp]:
  "tokens (schedule_exit_if_needed w) = tokens w"
  "index (schedule_exit_if_needed w) = index w"
  "current_text (schedule_exit_if_needed w) = current_text w"
  "args (schedule_exit_if_needed w) = args w"
  "label (schedule_exit_if_needed w) = label w"
  by (simp_all add: schedule_exit_if_needed_def)

lemma tick_at_end:
  assumes "length (tokens w) \<le> index w"
  shows "tick e w = (schedule_exit_if_needed (apply_reveal_position e True w), False)"
  using assms by (simp add: tick_def)

lemma tick_step:
  assumes "index w < length (tokens w)"
  shows "tokens (fst (tick e w)) = tokens w"
    and "index (fst (tick e w)) = Suc (index w)"
    and "current_text (fst (tick e w)) = current_text w @ tokens w ! index w"
    and "label_text (label (fst (tick e w))) = current_text (fst (tick e w))"
    and "args (fst (tick e w)) = args w"
    and "snd (tick e w) \<longleftrightarrow> Suc (index w) < length (tokens w)"
  using assms by (simp_all add: tick_def Let_def)

lemma tick_fields [simp]:
  "tokens (fst (tick e w)) = tokens w"
  "args (fst (tick e w)) = args w"
  by (simp_all add: tick_def Let_def)

lemma ticks_fields [simp]:
  "tokens (ticks k e w) = tokens w"
  "args (ticks k e w) = args w"
  by (induction k arbitrary: w) simp_all

lemma ticks_Suc_right: "ticks (Suc k) e w = fst (tick e (ticks k e w))"
  by (induction k arbitrary: w) simp_all

lemma ticks_index:
  "index w + k \<le> length (tokens w) \<Longrightarrow> index (ticks k e w) = index w + k"
proof (induction k)
  case 0
  show ?case by simp
next
  case (Suc k)
  then have "index (ticks k e w) = index w + k" by simp
  moreover from Suc.prems have "index w + k < length (tokens w)" by simp
  ultimately show ?case
    by (simp only: ticks_Suc_right) (simp add: tick_step(2))
qed

lemma ticks_current_text:
  "index w + k \<le> length (tokens w) \<Longrightarrow>
   current_text (ticks k e w) = current_text w @ concat (take k (drop (index w) (tokens w)))"
proof (induction k)
  case 0
  show ?case by simp
next
  case (Suc k)
  then have ih: "current_text (ticks k e w) = current_text w @ concat (take k (drop (index w) (tokens w)))"
    by simp
  from Suc.prems have lt: "index w + k < length (tokens w)" by simp
  then have ix: "index (ticks k e w) = index w + k" by (simp add: ticks_index)
  have "take (Suc k) (drop (index w) (tokens w))
        = take k (drop (index w) (tokens w)) @ [tokens w ! (index w + k)]"
    using lt by (simp add: take_Suc_conv_app_nth)
  then show ?case
    using lt ix ih by (simp only: ticks_Suc_right) (simp add: tick_step(3))
qed

lemma ticks_label_text:
  "index w + k \<le> length (tokens w) \<Longrightarrow> 0 < k \<Longrightarrow>
   label_text (label (ticks k e w)) = current_text (ticks k e w)"
proof (cases k)
  case 0
  assume "0 < k" with 0 show ?thesis by simp
next
  case (Suc j)
  assume "index w + k \<le> length (tokens w)"
  with Suc have "index (ticks j e w) < length (tokens (ticks j e w))"
    by (simp add: ticks_index)
  then show ?thesis
    unfolding Suc ticks_Suc_right by (rule tick_step(4))
qed

lemma run_timer_length:
  "index w < length (tokens w) \<Longrightarrow> length (run_timer e w) = length (tokens w) - index w"
proof (induction e w rule: run_timer.induct)
  case (1 e w)
  obtain w' again where t: "tick e w = (w', again)" by (cases "tick e w")
  have w': "tokens w' = tokens w" "index w' = Suc (index w)"
    and ag: "again \<longleftrightarrow> Suc (index w) < length (tokens w)"
    using tick_step(1,2,6)[OF "1.prems", of e] t by simp_all
  show ?case
  proof (cases again)
    case True
    with "1.IH"[OF t[symmetric] True] w' ag
    have "length (run_timer e w') = length (tokens w) - Suc (index w)" by simp
    with True t "1.prems" show ?thesis
      by (simp add: run_timer.simps[of e w])
  next
    case False
    with t ag "1.prems" show ?thesis
      by (simp add: run_timer.simps[of e w])
  qed
qed

lemma run_timer_nth:
  "index w < length (tokens w) \<Longrightarrow> k < length (tokens w) - index w \<Longrightarrow>
   run_timer e w ! k = ticks (Suc k) e w"
proof (induction e w arbitrary: k rule: run_timer.induct)
  case (1 e w)
  obtain w' again where t: "tick e w = (w', again)" by (cases "tick e w")
  have w': "tokens w' = tokens w" "index w' = Suc (index w)"
    and ag: "again \<longleftrightarrow> Suc (index w) < length (tokens w)"
    using tick_step(1,2,6)[OF "1.prems"(1), of e] t by simp_all
  show ?case
  proof (cases k)
    case 0
    with t show ?thesis by (simp add: run_timer.simps[of e w])
  next
    case (Suc j)
    with "1.prems" have again using ag by simp
    moreover have "run_timer e w' ! j = ticks (Suc j) e w'"
      using "1.IH"[OF t[symmetric] \<open>again\<close>, of j] w' "1.prems" Suc by simp
    ultimately show ?thesis
      using t Suc by (simp add: run_timer.simps[of e w])
  qed
qed


lemma schedule_exit_if_needed_timeouts:
  "timeouts (schedule_exit_if_needed w) =
     timeouts w @ (if exit_after (args w) \<le> 0 \<or> exit_scheduled w then []
                   else [(py_int (exit_after (args w) * 1000), Exit_cb)])"
  by (simp add: schedule_exit_if_needed_def)

lemma start_animation_empty:
  "tokens w = [] \<Longrightarrow>
   start_animation e w = schedule_exit_if_needed (apply_reveal_position e True w)"
  by (simp add: start_animation_def)

lemma start_animation_nonempty:
  "tokens w \<noteq> [] \<Longrightarrow>
   start_animation e w = timeout_add (max 1 (py_int (1000 / max (speed (args w)) (1 / 100)))) Tick_cb w"
  by (simp add: start_animation_def)

lemma tick_trace_empty:
  assumes "tokens w = []" and "timeouts w = []"
  shows "tick_trace e (start_animation e w) = []"
  using assms
  by (simp add: tick_trace_def start_animation_empty schedule_exit_if_needed_timeouts)

lemma tick_trace_nonempty:
  assumes "tokens w \<noteq> []"
  shows "tick_trace e (start_animation e w) = run_timer e (start_animation e w)"
  using assms by (simp add: tick_trace_def start_animation_nonempty)

lemma start_animation_fields [simp]:
  "tokens (start_animation e w) = tokens w"
  "index (start_animation e w) = index w"
  "current_text (start_animation e w) = current_text w"
  "args (start_animation e w) = args w"
  by (simp_all add: start_animation_def)

lemma tick_index_mono: "index v \<le> index (fst (tick e v))"
  by (simp add: tick_def Let_def)

lemma tick_index_bound:
  "index v \<le> length (tokens v) \<Longrightarrow> index (fst (tick e v)) \<le> length (tokens v)"
  by (simp add: tick_def Let_def)

lemma tick_again_iff: "snd (tick e v) \<longleftrightarrow> index (fst (tick e v)) < length (tokens v)"
  by (simp add: tick_def Let_def)

lemma tick_text_invariant:
  assumes "current_text v = concat (take (index v) (tokens v))"
  shows "current_text (fst (tick e v)) = concat (take (index (fst (tick e v))) (tokens v))"
proof (cases "index v < length (tokens v)")
  case True
  then show ?thesis
    using assms by (simp add: tick_step(2,3) take_Suc_conv_app_nth)
next
  case False
  then show ?thesis using assms by (simp add: tick_at_end)
qed

lemma tick_idle_at_end:
  assumes "length (tokens v) \<le> index v"
  shows "index (fst (tick e v)) = index v \<and> current_text (fst (tick e v)) = current_text v
         \<and> label_text (label (fst (tick e v))) = label_text (label v) \<and> \<not> snd (tick e v)"
  using assms by (simp add: tick_at_end)

text \<open>
  C2. A window in its initial state (index 0, no text, no timer) with \<open>N\<close> tokens: once the
  animation is started the main loop calls \<open>tick\<close> exactly \<open>N\<close> times. The \<open>k\<close>-th call
  leaves index \<open>k\<close>, and the accumulated and the displayed text are the concatenation of
  the first \<open>k\<close> tokens; it returns \<open>True\<close> (the timer goes on) exactly when \<open>k < N\<close>. For
  every state, \<open>tick\<close> never lowers the index, keeps it at most \<open>N\<close>, keeps the text equal
  to the concatenation of \<open>tokens[0:index]\<close>, returns \<open>False\<close> exactly when the index has
  reached \<open>N\<close>, and at index \<open>N\<close> changes neither index nor text.
\<close>

theorem reveal_ticks:
  fixes e :: env and w :: window
  defines "tr \<equiv> tick_trace e (start_animation e w)"
  assumes "index w = 0" and "current_text w = []" and "timeouts w = []"
  shows "length tr = length (tokens w)
    \<and> (\<forall>k<length (tokens w).
          tr ! k = ticks (Suc k) e (start_animation e w)
        \<and> index (tr ! k) = Suc k
        \<and> tokens (tr ! k) = tokens w
        \<and> current_text (tr ! k) = concat (take (Suc k) (tokens w))
        \<and> label_text (label (tr ! k)) = concat (take (Suc k) (tokens w))
        \<and> (snd (tick e (ticks k e (start_animation e w))) \<longleftrightarrow> Suc k < length (tokens w)))
    \<and> (\<forall>v. index v \<le> index (fst (tick e v))
          \<and> (index v \<le> length (tokens v) \<longrightarrow> index (fst (tick e v)) \<le> length (tokens v))
          \<and> (current_text v = concat (take (index v) (tokens v)) \<longrightarrow>
               current_text (fst (tick e v)) = concat (take (index (fst (tick e v))) (tokens v)))
          \<and> (snd (tick e v) \<longleftrightarrow> index (fst (tick e v)) < length (tokens v))
          \<and> (length (tokens v) \<le> index v \<longrightarrow>
               index (fst (tick e v)) = index v \<and> current_text (fst (tick e v)) = current_text v
               \<and> label_text (label (fst (tick e v))) = label_text (label v) \<and> \<not> snd (tick e v)))"
proof (intro conjI allI impI)
  show "length tr = length (tokens w)"
  proof (cases "tokens w = []")
    case True
    then show ?thesis unfolding tr_def using assms(4) by (simp add: tick_trace_empty)
  next
    case False
    then have "index (start_animation e w) < length (tokens (start_animation e w))"
      using assms(2) by simp
    then have "length (run_timer e (start_animation e w)) = length (tokens w)"
      using assms(2) by (simp add: run_timer_length)
    with False show ?thesis unfolding tr_def by (simp add: tick_trace_nonempty)
  qed
next
  fix k assume k: "k < length (tokens w)"
  let ?w1 = "start_animation e w"
  have ne: "tokens w \<noteq> []"
  proof
    assume "tokens w = []"
    with k show False by simp
  qed
  have i0: "index ?w1 = 0" and c0: "current_text ?w1 = []" and t0: "tokens ?w1 = tokens w"
    using assms(2,3) by simp_all
  have trk: "tr ! k = ticks (Suc k) e ?w1"
    unfolding tr_def tick_trace_nonempty[OF ne]
    using k i0 t0 ne by (intro run_timer_nth) simp_all
  show "tr ! k = ticks (Suc k) e ?w1" by (rule trk)
  have bound: "index ?w1 + Suc k \<le> length (tokens ?w1)" using k i0 t0 by simp
  show ix: "index (tr ! k) = Suc k"
    unfolding trk using ticks_index[OF bound, of e] i0 by simp
  show "tokens (tr ! k) = tokens w" unfolding trk by simp
  show ct: "current_text (tr ! k) = concat (take (Suc k) (tokens w))"
    unfolding trk using ticks_current_text[OF bound, of e] i0 c0 t0 by simp
  show "label_text (label (tr ! k)) = concat (take (Suc k) (tokens w))"
    using ticks_label_text[OF bound, of e] ct unfolding trk by simp
  have "index (ticks k e ?w1) = k"
    using ticks_index[of ?w1 k e] k i0 t0 by simp
  then show "snd (tick e (ticks k e ?w1)) \<longleftrightarrow> Suc k < length (tokens w)"
    using tick_step(6)[of "ticks k e ?w1" e] k by simp
next
  fix v :: window show "index v \<le> index (fst (tick e v))" by (rule tick_index_mono)
next
  fix v :: window assume "index v \<le> length (tokens v)"
  then show "index (fst (tick e v)) \<le> length (tokens v)" by (rule tick_index_bound)
next
  fix v :: window assume "current_text v = concat (take (index v) (tokens v))"
  then show "current_text (fst (tick e v)) = concat (take (index (fst (tick e v))) (tokens v))"
    by (rule tick_text_invariant)
next
  fix v :: window show "snd (tick e v) \<longleftrightarrow> index (fst (tick e v)) < length (tokens v)"
    by (rule tick_again_iff)
next
  fix v :: window assume a: "length (tokens v) \<le> index v"
  show "index (fst (tick e v)) = index v" using tick_idle_at_end[OF a] by blast
  show "current_text (fst (tick e v)) = current_text v" using tick_idle_at_end[OF a] by blast
  show "label_text (label (fst (tick e v))) = label_text (label v)" using tick_idle_at_end[OF a] by blast
  show "\<not> snd (tick e v)" using tick_idle_at_end[OF a] by blast
qed


lemma new_window_idle:
  "index (new_window e i a mon) = 0"
  "current_text (new_window e i a mon) = []"
  "timeouts (new_window e i a mon) = []"
  "tokens (new_window e i a mon) = tokenize (message a) (mode a)"
  "args (new_window e i a mon) = a"
  "exit_scheduled (new_window e i a mon) = False"
  "wid (new_window e i a mon) = i"
  by (simp_all add: new_window_def build_ui_def setup_layer_shell_def Let_def
        split: option.split prod.split)

theorem reveal_ticks_witness:
  "index (new_window (sample_env 0 []) 0 (default_args (str ''hi'')) None) = 0
   \<and> current_text (new_window (sample_env 0 []) 0 (default_args (str ''hi'')) None) = []
   \<and> timeouts (new_window (sample_env 0 []) 0 (default_args (str ''hi'')) None) = []
   \<and> length (tick_trace (sample_env 0 [])
        (start_animation (sample_env 0 [])
          (new_window (sample_env 0 []) 0 (default_args (str ''hi'')) None))) = 2
   \<and> current_text (tick_trace (sample_env 0 [])
        (start_animation (sample_env 0 [])
          (new_window (sample_env 0 []) 0 (default_args (str ''hi'')) None)) ! 1) = str ''hi''"
proof -
  let ?e = "sample_env 0 []"
  let ?w = "new_window ?e 0 (default_args (str ''hi'')) None"
  have h: "index ?w = 0" "current_text ?w = []" "timeouts ?w = []"
    by (simp_all add: new_window_idle)
  have t: "tokens ?w = [str ''h'', str ''i'']"
    by (simp add: new_window_idle default_args_def tokenize_def str_def)
  have "length (tick_trace ?e (start_animation ?e ?w)) = length (tokens ?w)"
    and "\<forall>k<length (tokens ?w).
           current_text (tick_trace ?e (start_animation ?e ?w) ! k) = concat (take (Suc k) (tokens ?w))"
    using reveal_ticks[OF h, of ?e] by blast+
  then show ?thesis using h unfolding t by (simp add: str_def)
qed

section \<open>Timer period and auto-close\<close>












lemma exit_timeouts_apply_reveal_position [simp]:
  "exit_timeouts (apply_reveal_position e d w) = exit_timeouts w"
  by (simp add: exit_timeouts_def)












section \<open>Empty token sequences and the reveal position\<close>

lemma apply_reveal_position_done_label:
  "label (apply_reveal_position e True w) =
     (label w)\<lparr>halign := Align_CENTER,
       xalign := (if reveal_position (args w) = ''left'' then 0 else 1 / 2),
       justify := (if reveal_position (args w) = ''left'' then Justification_LEFT
                   else Justification_CENTER),
       size_request := (- 1, - 1)\<rparr>"
  by (simp add: apply_reveal_position_def Let_def)

lemma apply_reveal_position_done_size [simp]:
  "size_request (label (apply_reveal_position e True w)) = (- 1, - 1)"
  by (simp add: apply_reveal_position_done_label)

lemma new_window_label_text: "label_text (label (new_window e i a mon)) = []"
  by (simp add: new_window_def build_ui_def setup_layer_shell_def Let_def
        split: option.split prod.split)

lemma new_window_size_request:
  "size_request (label (new_window e i a mon)) =
     (if reveal_position a = ''center'' \<or> reveal_position a = ''left'' then (- 1, - 1)
      else if 0 < pixel_width e (message a) then (pixel_width e (message a), - 1)
      else (- 1, - 1))"
  by (simp add: new_window_def build_ui_def setup_layer_shell_def Let_def
        apply_reveal_position_def reserve_final_width_def
        split: option.split prod.split)

lemma tokenize_empty: "tokenize [] md = []"
  by (simp add: tokenize_def)

text \<open>
  C7. A newly built window whose token sequence is empty (as for the empty message):
  starting the animation applies the final layout and the exit scheduling at once. No
  tick happens, no recurring timer is registered, the index is at its end, the
  accumulated and the displayed text are empty, and the label has the final layout with
  no size request.
\<close>

theorem start_animation_no_tokens:
  fixes e :: env and i :: nat and a :: arguments and mon :: "monitor option"
  defines "w0 \<equiv> new_window e i a mon"
  assumes "tokenize (message a) (mode a) = []"
  shows "start_animation e w0 = schedule_exit_if_needed (apply_reveal_position e True w0)
    \<and> tick_trace e (start_animation e w0) = []
    \<and> filter (\<lambda>t. snd t = Tick_cb) (timeouts (start_animation e w0)) = []
    \<and> index (start_animation e w0) = length (tokens (start_animation e w0))
    \<and> current_text (start_animation e w0) = []
    \<and> label_text (label (start_animation e w0)) = []
    \<and> size_request (label (start_animation e w0)) = (- 1, - 1)
    \<and> halign (label (start_animation e w0)) = Align_CENTER
    \<and> xalign (label (start_animation e w0)) = (if reveal_position a = ''left'' then 0 else 1 / 2)
    \<and> justify (label (start_animation e w0)) =
        (if reveal_position a = ''left'' then Justification_LEFT else Justification_CENTER)
    \<and> tokenize [] (mode a) = []"
proof -
  have t: "tokens w0 = []" and ts: "timeouts w0 = []"
    using assms by (simp_all add: new_window_idle)
  have st: "start_animation e w0 = schedule_exit_if_needed (apply_reveal_position e True w0)"
    using t by (rule start_animation_empty)
  have tr: "tick_trace e (start_animation e w0) = []"
    using t ts by (rule tick_trace_empty)
  have nt: "filter (\<lambda>t. snd t = Tick_cb) (timeouts (start_animation e w0)) = []"
    unfolding st by (simp add: schedule_exit_if_needed_timeouts ts)
  have ix: "index (start_animation e w0) = length (tokens (start_animation e w0))"
    using t by (simp add: w0_def new_window_idle)
  have ct: "current_text (start_animation e w0) = []"
    by (simp add: w0_def new_window_idle)
  have lb: "label (start_animation e w0) = label (apply_reveal_position e True w0)"
    unfolding st by simp
  have lt: "label_text (label (start_animation e w0)) = []"
    unfolding lb by (simp add: w0_def new_window_label_text)
  have sz: "size_request (label (start_animation e w0)) = (- 1, - 1)"
    unfolding lb by simp
  have ar: "args w0 = a" by (simp add: w0_def new_window_idle)
  have ha: "halign (label (start_animation e w0)) = Align_CENTER"
    unfolding lb by (simp add: apply_reveal_position_done_label)
  have xa: "xalign (label (start_animation e w0)) = (if reveal_position a = ''left'' then 0 else 1 / 2)"
    unfolding lb by (simp add: apply_reveal_position_done_label ar)
  have ju: "justify (label (start_animation e w0)) =
        (if reveal_position a = ''left'' then Justification_LEFT else Justification_CENTER)"
    unfolding lb by (simp add: apply_reveal_position_done_label ar)
  from st tr nt ix ct lt sz ha xa ju tokenize_empty[of "mode a"] show ?thesis
    by (intro conjI)
qed

theorem start_animation_no_tokens_witness:
  "tokenize (message (default_args [])) (mode (default_args [])) = []
   \<and> tick_trace (sample_env 0 [])
       (start_animation (sample_env 0 []) (new_window (sample_env 0 []) 0 (default_args []) None)) = []
   \<and> current_text
       (start_animation (sample_env 0 []) (new_window (sample_env 0 []) 0 (default_args []) None)) = []"
proof -
  have h: "tokenize (message (default_args [])) (mode (default_args [])) = []"
    by (simp add: default_args_def tokenize_def)
  from start_animation_no_tokens[OF h, of "sample_env 0 []" 0 None] h show ?thesis
    by blast
qed

lemma findall_words_all_space: "list_all is_space m \<Longrightarrow> findall_words m = []"
  by (induction m) simp_all

text \<open>
  C10. In word mode the concatenation of the tokens is the message without its leading
  whitespace. So for a non-empty message of whitespace only the token sequence is empty:
  the window is done at the start with no tick, and the accumulated and the displayed
  text are empty although the message is not.
\<close>

theorem whitespace_only_word_mode:
  fixes e :: env and i :: nat and a :: arguments and mon :: "monitor option"
  defines "w0 \<equiv> new_window e i a mon"
  assumes "mode a = ''word''"
  shows "concat (tokenize (message a) (mode a)) = dropWhile is_space (message a)
    \<and> (message a \<noteq> [] \<and> list_all is_space (message a) \<longrightarrow>
          tokens w0 = []
        \<and> start_animation e w0 = schedule_exit_if_needed (apply_reveal_position e True w0)
        \<and> tick_trace e (start_animation e w0) = []
        \<and> current_text (start_animation e w0) = []
        \<and> label_text (label (start_animation e w0)) = []
        \<and> label_text (label (start_animation e w0)) \<noteq> message a)"
proof (intro conjI impI)
  show "concat (tokenize (message a) (mode a)) = dropWhile is_space (message a)"
    using assms(2) by (simp add: tokenize_word_concat)
next
  assume h: "message a \<noteq> [] \<and> list_all is_space (message a)"
  then have tk: "tokenize (message a) (mode a) = []"
    using assms(2) by (simp add: tokenize_def findall_words_all_space)
  then show t: "tokens w0 = []" by (simp add: w0_def new_window_idle)
  have ts: "timeouts w0 = []" by (simp add: w0_def new_window_idle)
  show st: "start_animation e w0 = schedule_exit_if_needed (apply_reveal_position e True w0)"
    using t by (rule start_animation_empty)
  show "tick_trace e (start_animation e w0) = []"
    using t ts by (rule tick_trace_empty)
  show "current_text (start_animation e w0) = []"
    by (simp add: w0_def new_window_idle)
  show lt: "label_text (label (start_animation e w0)) = []"
    unfolding st by (simp add: w0_def new_window_label_text)
  show "label_text (label (start_animation e w0)) \<noteq> message a"
    using h lt by auto
qed

theorem whitespace_only_word_mode_witness:
  "mode ((default_args (str ''  ''))\<lparr>mode := ''word''\<rparr>) = ''word''
   \<and> message ((default_args (str ''  ''))\<lparr>mode := ''word''\<rparr>) \<noteq> []
   \<and> list_all is_space (message ((default_args (str ''  ''))\<lparr>mode := ''word''\<rparr>))
   \<and> tokens (new_window (sample_env 0 []) 0 ((default_args (str ''  ''))\<lparr>mode := ''word''\<rparr>) None) = []
   \<and> tick_trace (sample_env 0 [])
       (start_animation (sample_env 0 [])
         (new_window (sample_env 0 []) 0 ((default_args (str ''  ''))\<lparr>mode := ''word''\<rparr>) None)) = []"
proof -
  let ?a = "(default_args (str ''  ''))\<lparr>mode := ''word''\<rparr>"
  have m: "mode ?a = ''word''" by simp
  have h: "message ?a \<noteq> [] \<and> list_all is_space (message ?a)"
    by (simp add: default_args_def str_def is_space_def)
  from whitespace_only_word_mode[OF m, of "sample_env 0 []" 0 None] h m show ?thesis
    by blast
qed


lemma schedule_exit_if_needed_label_size [simp]:
  "size_request (label (schedule_exit_if_needed w)) = size_request (label w)"
  by simp

lemma tick_size_keep:
  assumes "Suc (index w) < length (tokens w)"
  shows "size_request (label (fst (tick e w))) = size_request (label w)"
  using assms by (simp add: tick_def Let_def)

lemma tick_size_done:
  assumes "length (tokens w) \<le> Suc (index w)"
  shows "size_request (label (fst (tick e w))) = (- 1, - 1)"
  using assms by (simp add: tick_def Let_def)

lemma tick_size_unset:
  assumes "size_request (label w) = (- 1, - 1)"
  shows "size_request (label (fst (tick e w))) = (- 1, - 1)"
  using assms by (simp add: tick_def Let_def)

lemma ticks_size_keep:
  "index w + k < length (tokens w) \<Longrightarrow>
   size_request (label (ticks k e w)) = size_request (label w)"
proof (induction k)
  case 0
  show ?case by simp
next
  case (Suc k)
  then have ih: "size_request (label (ticks k e w)) = size_request (label w)" by simp
  from Suc.prems have "index (ticks k e w) = index w + k" by (simp add: ticks_index)
  with Suc.prems have "Suc (index (ticks k e w)) < length (tokens (ticks k e w))" by simp
  then show ?case
    unfolding ticks_Suc_right using ih by (simp add: tick_size_keep)
qed

lemma ticks_index_lower:
  "min (index w + k) (length (tokens w)) \<le> index (ticks k e w)"
proof (induction k)
  case 0
  show ?case by simp
next
  case (Suc k)
  let ?v = "ticks k e w"
  show ?case
  proof (cases "index ?v < length (tokens ?v)")
    case True
    then have "index (ticks (Suc k) e w) = Suc (index ?v)"
      unfolding ticks_Suc_right by (rule tick_step(2))
    with Suc show ?thesis by simp
  next
    case False
    have "index ?v \<le> index (ticks (Suc k) e w)"
      unfolding ticks_Suc_right by (rule tick_index_mono)
    with False show ?thesis by simp
  qed
qed

lemma ticks_size_done:
  assumes "length (tokens w) \<le> index w + k" and "0 < k"
  shows "size_request (label (ticks k e w)) = (- 1, - 1)"
proof -
  from assms(2) obtain j where k: "k = Suc j" by (cases k) auto
  have "min (index w + j) (length (tokens w)) \<le> index (ticks j e w)"
    by (rule ticks_index_lower)
  with assms(1) k have "length (tokens (ticks j e w)) \<le> Suc (index (ticks j e w))"
    by simp
  then show ?thesis
    unfolding k ticks_Suc_right by (rule tick_size_done)
qed

lemma ticks_size_unset:
  "size_request (label w) = (- 1, - 1) \<Longrightarrow> size_request (label (ticks k e w)) = (- 1, - 1)"
  by (induction k arbitrary: w) (simp_all add: tick_size_unset)

lemma start_animation_label:
  "tokens w \<noteq> [] \<Longrightarrow> label (start_animation e w) = label w"
  by (simp add: start_animation_nonempty)

lemma start_animation_size_unset:
  assumes "size_request (label w) = (- 1, - 1)"
  shows "size_request (label (start_animation e w)) = (- 1, - 1)"
proof (cases "tokens w = []")
  case True
  then show ?thesis by (simp add: start_animation_empty)
next
  case False
  then show ?thesis using assms by (simp add: start_animation_label)
qed

text \<open>
  C9 (as amended). Under \<open>left-to-center\<close>, from the construction of the window and after
  every tick but the last, the size request of the label is the measured pixel width of
  the whole message when that width is positive, and is unset when it is not; from the
  last tick on (from the start, when there are no tokens) it is unset. Under \<open>center\<close> and
  \<open>left\<close> it is unset in all of these states.
\<close>

theorem reveal_position_width:
  fixes e :: env and i :: nat and a :: arguments and mon :: "monitor option"
  defines "w0 \<equiv> new_window e i a mon"
    and "N \<equiv> length (tokenize (message a) (mode a))"
    and "reserved \<equiv> (if 0 < pixel_width e (message a) then (pixel_width e (message a), - 1)
                      else (- 1, - 1))"
  shows "(reveal_position a = ''left-to-center'' \<longrightarrow>
            size_request (label w0) = reserved
          \<and> (\<forall>k<N. size_request (label (ticks k e (start_animation e w0))) = reserved)
          \<and> (\<forall>k\<ge>N. size_request (label (ticks k e (start_animation e w0))) = (- 1, - 1)))
    \<and> (reveal_position a = ''center'' \<or> reveal_position a = ''left'' \<longrightarrow>
            size_request (label w0) = (- 1, - 1)
          \<and> (\<forall>k. size_request (label (ticks k e (start_animation e w0))) = (- 1, - 1)))"
proof (intro conjI impI allI)
  assume ltc: "reveal_position a = ''left-to-center''"
  show r0: "size_request (label w0) = reserved"
    using ltc by (simp add: w0_def reserved_def new_window_size_request)
  have tk: "tokens w0 = tokenize (message a) (mode a)" and ix: "index w0 = 0"
    by (simp_all add: w0_def new_window_idle)
  {
    fix k assume k: "k < N"
    then have ne: "tokens w0 \<noteq> []" using tk by (auto simp: N_def)
    have "index (start_animation e w0) + k < length (tokens (start_animation e w0))"
      using k ix tk by (simp add: N_def)
    then have "size_request (label (ticks k e (start_animation e w0)))
               = size_request (label (start_animation e w0))"
      by (rule ticks_size_keep)
    then show "size_request (label (ticks k e (start_animation e w0))) = reserved"
      using r0 ne by (simp add: start_animation_label)
  }
  {
    fix k assume k: "N \<le> k"
    show "size_request (label (ticks k e (start_animation e w0))) = (- 1, - 1)"
    proof (cases k)
      case 0
      with k tk have "tokens w0 = []" by (simp add: N_def)
      with 0 show ?thesis by (simp add: start_animation_empty)
    next
      case (Suc j)
      have "length (tokens (start_animation e w0)) \<le> index (start_animation e w0) + k"
        using k ix tk by (simp add: N_def)
      moreover have "0 < k" using Suc by simp
      ultimately show ?thesis by (rule ticks_size_done)
    qed
  }
next
  assume cl: "reveal_position a = ''center'' \<or> reveal_position a = ''left''"
  show u0: "size_request (label w0) = (- 1, - 1)"
    using cl by (auto simp: w0_def new_window_size_request)
  fix k
  show "size_request (label (ticks k e (start_animation e w0))) = (- 1, - 1)"
    by (intro ticks_size_unset start_animation_size_unset u0)
qed

theorem reveal_position_width_witness:
  "reveal_position (default_args (str ''hi'')) = ''left-to-center''
   \<and> size_request (label (ticks 1 (sample_env 0 [])
        (start_animation (sample_env 0 [])
          (new_window (sample_env 0 []) 0 (default_args (str ''hi'')) None)))) = (80, - 1)
   \<and> size_request (label (ticks 2 (sample_env 0 [])
        (start_animation (sample_env 0 [])
          (new_window (sample_env 0 []) 0 (default_args (str ''hi'')) None)))) = (- 1, - 1)
   \<and> reveal_position ((default_args (str ''hi''))\<lparr>reveal_position := ''center''\<rparr>) = ''center''
   \<and> size_request (label (ticks 1 (sample_env 0 [])
        (start_animation (sample_env 0 [])
          (new_window (sample_env 0 []) 0
            ((default_args (str ''hi''))\<lparr>reveal_position := ''center''\<rparr>) None)))) = (- 1, - 1)"
proof -
  let ?e = "sample_env 0 []"
  let ?a = "default_args (str ''hi'')"
  let ?c = "?a\<lparr>reveal_position := ''center''\<rparr>"
  have rp: "reveal_position ?a = ''left-to-center''" by (simp add: default_args_def)
  have n: "length (tokenize (message ?a) (mode ?a)) = 2"
    by (simp add: default_args_def tokenize_def str_def)
  have pw: "pixel_width ?e (message ?a) = 80"
    by (simp add: default_args_def sample_env_def str_def)
  have rc: "reveal_position ?c = ''center''" by simp
  note t = reveal_position_width[of ?a ?e 0 None]
  have a1: "\<forall>k<2. size_request (label (ticks k ?e (start_animation ?e (new_window ?e 0 ?a None)))) = (80, - 1)"
    and a2: "\<forall>k\<ge>2. size_request (label (ticks k ?e (start_animation ?e (new_window ?e 0 ?a None)))) = (- 1, - 1)"
    using t rp n pw by simp_all
  have "1 < (2::nat)" by simp
  with a1 have "size_request (label (ticks 1 ?e (start_animation ?e (new_window ?e 0 ?a None)))) = (80, - 1)"
    by blast
  moreover have "size_request (label (ticks 2 ?e (start_animation ?e (new_window ?e 0 ?a None)))) = (- 1, - 1)"
    using a2 by blast
  moreover have "size_request (label (ticks 1 ?e (start_animation ?e (new_window ?e 0 ?c None)))) = (- 1, - 1)"
    using reveal_position_width[of ?c ?e 0 None] rc by blast
  ultimately show ?thesis using rp rc by blast
qed

text \<open>
  C9 as stated fails when the measured width is not positive. The message is one zero
  width space: it has one token, so the window is animating after the start, the measured
  width is 0, and the size request is unset, width \<open>-1\<close>.
\<close>

theorem reveal_position_width_counterexample:
  "reveal_position (default_args [8203]) = ''left-to-center''
   \<and> index (start_animation (sample_env 0 []) (new_window (sample_env 0 []) 0 (default_args [8203]) None))
       < length (tokens (start_animation (sample_env 0 []) (new_window (sample_env 0 []) 0 (default_args [8203]) None)))
   \<and> pixel_width (sample_env 0 []) (message (default_args [8203])) = 0
   \<and> size_request (label (start_animation (sample_env 0 [])
        (new_window (sample_env 0 []) 0 (default_args [8203]) None))) = (- 1, - 1)"
proof -
  let ?e = "sample_env 0 []"
  let ?a = "default_args [8203]"
  let ?w = "new_window ?e 0 ?a None"
  have rp: "reveal_position ?a = ''left-to-center''" by (simp add: default_args_def)
  have tk: "tokens ?w = [[8203]]"
    by (simp add: new_window_idle default_args_def tokenize_def)
  have pw: "pixel_width ?e (message ?a) = 0"
    by (simp add: default_args_def sample_env_def)
  have ix: "index (start_animation ?e ?w) < length (tokens (start_animation ?e ?w))"
    by (simp add: tk new_window_idle(1))
  have "size_request (label ?w) = (- 1, - 1)"
    unfolding new_window_size_request using pw by simp
  then have "size_request (label (start_animation ?e ?w)) = (- 1, - 1)"
    by (rule start_animation_size_unset)
  with rp ix pw show ?thesis by blast
qed

section \<open>Properties of the window orchestrator\<close>

lemma new_window_layer_shell_enabled:
  "layer_shell_enabled (new_window e i a mon) =
     (case mon of None \<Rightarrow> False | Some m \<Rightarrow> gtk4_layer_shell e \<and> is_layer_window e i)"
  by (simp add: new_window_def build_ui_def setup_layer_shell_def Let_def
        split: option.split prod.split)

lemma new_window_unanchored:
  "surface (new_window e i a None) = None"
  by (simp add: new_window_def build_ui_def Let_def)

lemma monitor_loop_fail:
  assumes "gtk4_layer_shell e"
    and "\<exists>k<length (filter (\<lambda>m. m \<noteq> None) ms). \<not> is_layer_window e (next_wid b + k)"
  shows "\<exists>j<length (filter (\<lambda>m. m \<noteq> None) ms).
           \<not> is_layer_window e (next_wid b + j)
         \<and> (\<forall>k<j. is_layer_window e (next_wid b + k))
         \<and> monitor_loop e ms b =
             b\<lparr>next_wid := Suc (next_wid b + j), windows := [],
               destroyed := destroyed b @ [next_wid b + j] @ map wid (windows b)
                            @ [next_wid b ..< next_wid b + j],
               stderr := stderr b @ [''Warning: Layer-shell init failed, falling back to one monitor. Try starting with LD_PRELOAD=libgtk4-layer-shell.so.0'']\<rparr>"
  using assms(2)
proof (induction ms arbitrary: b)
  case Nil
  then show ?case by simp
next
  case (Cons mo ms)
  show ?case
  proof (cases mo)
    case None
    with Cons.prems have "\<exists>k<length (filter (\<lambda>m. m \<noteq> None) ms). \<not> is_layer_window e (next_wid b + k)"
      by simp
    from Cons.IH[OF this] None show ?thesis by simp
  next
    case (Some m)
    let ?w = "new_window e (next_wid b) (app_args b) (Some m)"
    have en: "layer_shell_enabled ?w = is_layer_window e (next_wid b)"
      using assms(1) by (simp add: new_window_layer_shell_enabled)
    show ?thesis
    proof (cases "is_layer_window e (next_wid b)")
      case False
      then have "monitor_loop e (mo # ms) b =
          b\<lparr>next_wid := Suc (next_wid b + 0), windows := [],
            destroyed := destroyed b @ [next_wid b + 0] @ map wid (windows b)
                         @ [next_wid b ..< next_wid b + 0],
            stderr := stderr b @ [''Warning: Layer-shell init failed, falling back to one monitor. Try starting with LD_PRELOAD=libgtk4-layer-shell.so.0'']\<rparr>"
        using Some en by (simp add: Let_def new_window_idle)
      moreover have "0 < length (filter (\<lambda>m. m \<noteq> None) (mo # ms))" using Some by simp
      moreover have "\<not> is_layer_window e (next_wid b + 0)" using False by simp
      ultimately show ?thesis by blast
    next
      case True
      let ?b = "b\<lparr>next_wid := Suc (next_wid b), windows := windows b @ [?w]\<rparr>"
      from Cons.prems obtain k where k: "k < length (filter (\<lambda>m. m \<noteq> None) (mo # ms))"
        "\<not> is_layer_window e (next_wid b + k)" by blast
      with True have "k \<noteq> 0" by (cases k) auto
      then obtain k' where k': "k = Suc k'" by (cases k) auto
      with k Some have "k' < length (filter (\<lambda>m. m \<noteq> None) ms)"
        and "\<not> is_layer_window e (next_wid ?b + k')" by simp_all
      then have "\<exists>k<length (filter (\<lambda>m. m \<noteq> None) ms). \<not> is_layer_window e (next_wid ?b + k)"
        by blast
      from Cons.IH[OF this] obtain j where j: "j < length (filter (\<lambda>m. m \<noteq> None) ms)"
        "\<not> is_layer_window e (next_wid ?b + j)"
        "\<forall>k<j. is_layer_window e (next_wid ?b + k)"
        "monitor_loop e ms ?b =
             ?b\<lparr>next_wid := Suc (next_wid ?b + j), windows := [],
               destroyed := destroyed ?b @ [next_wid ?b + j] @ map wid (windows ?b)
                            @ [next_wid ?b ..< next_wid ?b + j],
               stderr := stderr ?b @ [''Warning: Layer-shell init failed, falling back to one monitor. Try starting with LD_PRELOAD=libgtk4-layer-shell.so.0'']\<rparr>"
        by blast
      have step: "monitor_loop e (mo # ms) b = monitor_loop e ms ?b"
        using Some en True by (simp add: Let_def)
      have a1: "Suc j < length (filter (\<lambda>m. m \<noteq> None) (mo # ms))" using j(1) Some by simp
      have a2: "\<not> is_layer_window e (next_wid b + Suc j)" using j(2) by simp
      have a3: "\<forall>k<Suc j. is_layer_window e (next_wid b + k)"
      proof (intro allI impI)
        fix k assume "k < Suc j"
        show "is_layer_window e (next_wid b + k)"
        proof (cases k)
          case 0
          with True show ?thesis by simp
        next
          case (Suc k'')
          with \<open>k < Suc j\<close> j(3) have "is_layer_window e (next_wid ?b + k'')" by simp
          with Suc show ?thesis by simp
        qed
      qed
      have upt: "[next_wid b ..< next_wid b + Suc j] = next_wid b # [Suc (next_wid b) ..< Suc (next_wid b) + j]"
        by (simp add: upt_rec)
      have a4: "monitor_loop e (mo # ms) b =
             b\<lparr>next_wid := Suc (next_wid b + Suc j), windows := [],
               destroyed := destroyed b @ [next_wid b + Suc j] @ map wid (windows b)
                            @ [next_wid b ..< next_wid b + Suc j],
               stderr := stderr b @ [''Warning: Layer-shell init failed, falling back to one monitor. Try starting with LD_PRELOAD=libgtk4-layer-shell.so.0'']\<rparr>"
        unfolding step j(4) upt by (simp add: new_window_idle)
      from a1 a2 a3 a4 show ?thesis by blast
    qed
  qed
qed


text \<open>
  C4. The application has no window yet, all monitors are asked for, the layer shell is
  loaded and the display lists its monitors. If anchoring fails for one of the windows
  the pass would create, then after \<open>_build_windows\<close> the window list holds exactly one
  window, the fallback built without a monitor: it is not a layer window and has no
  anchored surface. Every other window created in the pass has been destroyed, so of the
  windows of this pass only the fallback is left, and the warning has been printed.
\<close>

theorem build_windows_all_or_nothing:
  fixes e :: env and a :: app and ms :: "monitor option list"
  defines "a' \<equiv> build_windows e a"
  assumes "windows a = []" and "all_monitors (app_args a)" and "gtk4_layer_shell e"
    and "display e = Some ms"
    and "\<exists>k<length (filter (\<lambda>m. m \<noteq> None) ms). \<not> is_layer_window e (next_wid a + k)"
    and "\<forall>d\<in>set (destroyed a). d < next_wid a"
  shows "windows a' = [new_window e (next_wid a' - 1) (app_args a) None]
    \<and> length (windows a') = 1
    \<and> \<not> layer_shell_enabled (hd (windows a'))
    \<and> surface (hd (windows a')) = None
    \<and> wid (hd (windows a')) = next_wid a' - 1
    \<and> next_wid a < next_wid a' - 1
    \<and> set (destroyed a') = set (destroyed a) \<union> {next_wid a ..< next_wid a' - 1}
    \<and> {next_wid a ..< next_wid a'} - set (destroyed a') = {wid (hd (windows a'))}
    \<and> stderr a' = stderr a @ [''Warning: Layer-shell init failed, falling back to one monitor. Try starting with LD_PRELOAD=libgtk4-layer-shell.so.0'']"
proof -
  from monitor_loop_fail[OF assms(4,6)] obtain j where
    ml: "monitor_loop e ms a =
             a\<lparr>next_wid := Suc (next_wid a + j), windows := [],
               destroyed := destroyed a @ [next_wid a + j] @ map wid (windows a)
                            @ [next_wid a ..< next_wid a + j],
               stderr := stderr a @ [''Warning: Layer-shell init failed, falling back to one monitor. Try starting with LD_PRELOAD=libgtk4-layer-shell.so.0'']\<rparr>"
    by blast
  have a': "a' = a\<lparr>next_wid := Suc (Suc (next_wid a + j)),
               windows := [new_window e (Suc (next_wid a + j)) (app_args a) None],
               destroyed := destroyed a @ [next_wid a + j] @ [next_wid a ..< next_wid a + j],
               stderr := stderr a @ [''Warning: Layer-shell init failed, falling back to one monitor. Try starting with LD_PRELOAD=libgtk4-layer-shell.so.0'']\<rparr>"
    unfolding a'_def build_windows_def using assms(2,3,4,5) by (simp add: ml Let_def)
  have nw: "next_wid a' = Suc (Suc (next_wid a + j))"
    and ws: "windows a' = [new_window e (Suc (next_wid a + j)) (app_args a) None]"
    and ds: "destroyed a' = destroyed a @ [next_wid a + j] @ [next_wid a ..< next_wid a + j]"
    and se: "stderr a' = stderr a @ [''Warning: Layer-shell init failed, falling back to one monitor. Try starting with LD_PRELOAD=libgtk4-layer-shell.so.0'']"
    by (simp_all add: a')
  have c1: "windows a' = [new_window e (next_wid a' - 1) (app_args a) None]"
    by (simp add: ws nw)
  have c2: "length (windows a') = 1" by (simp add: ws)
  have c3: "\<not> layer_shell_enabled (hd (windows a'))"
    by (simp add: ws new_window_layer_shell_enabled)
  have c4: "surface (hd (windows a')) = None" by (simp add: ws new_window_unanchored)
  have c5: "wid (hd (windows a')) = next_wid a' - 1" by (simp add: ws nw new_window_idle)
  have c6: "next_wid a < next_wid a' - 1" by (simp add: nw)
  have c7: "set (destroyed a') = set (destroyed a) \<union> {next_wid a ..< next_wid a' - 1}"
    unfolding ds nw by auto
  have c8: "{next_wid a ..< next_wid a'} - set (destroyed a') = {wid (hd (windows a'))}"
    unfolding c7 c5 unfolding nw using assms(7) by fastforce
  from c1 c2 c3 c4 c5 c6 c7 c8 se show ?thesis by (intro conjI)
qed


theorem build_windows_all_or_nothing_witness:
  "windows (new_app (default_args (str ''hi''))) = []
   \<and> all_monitors (app_args (new_app (default_args (str ''hi''))))
   \<and> gtk4_layer_shell (sample_env 2 (replicate 3 (Some \<lparr>geometry = (1920, 1080)\<rparr>)))
   \<and> display (sample_env 2 (replicate 3 (Some \<lparr>geometry = (1920, 1080)\<rparr>)))
       = Some (replicate 3 (Some \<lparr>geometry = (1920, 1080)\<rparr>))
   \<and> \<not> is_layer_window (sample_env 2 (replicate 3 (Some \<lparr>geometry = (1920, 1080)\<rparr>)))
         (next_wid (new_app (default_args (str ''hi''))) + 2)
   \<and> length (windows (build_windows (sample_env 2 (replicate 3 (Some \<lparr>geometry = (1920, 1080)\<rparr>)))
         (new_app (default_args (str ''hi''))))) = 1
   \<and> \<not> layer_shell_enabled (hd (windows
         (build_windows (sample_env 2 (replicate 3 (Some \<lparr>geometry = (1920, 1080)\<rparr>)))
           (new_app (default_args (str ''hi''))))))"
proof -
  let ?ms = "replicate 3 (Some \<lparr>geometry = (1920, 1080)\<rparr>)"
  let ?e = "sample_env 2 ?ms"
  let ?a = "new_app (default_args (str ''hi''))"
  have h1: "windows ?a = []" by (simp add: new_app_def)
  have h2: "all_monitors (app_args ?a)" by (simp add: new_app_def default_args_def)
  have h3: "gtk4_layer_shell ?e" by (simp add: sample_env_def)
  have h4: "display ?e = Some ?ms" by (simp add: sample_env_def)
  have f: "\<not> is_layer_window ?e (next_wid ?a + 2)" by (simp add: sample_env_def)
  have "(2::nat) < length (filter (\<lambda>m. m \<noteq> None) ?ms)" by simp
  with f have h5: "\<exists>k<length (filter (\<lambda>m. m \<noteq> None) ?ms). \<not> is_layer_window ?e (next_wid ?a + k)"
    by blast
  have h6: "\<forall>d\<in>set (destroyed ?a). d < next_wid ?a" by (simp add: new_app_def)
  from build_windows_all_or_nothing[OF h1 h2 h3 h4 h5 h6] h1 h2 h3 h4 f show ?thesis
    by blast
qed






lemma present_fields [simp]:
  "wid (present w) = wid w"
  "timeouts (present w) = timeouts w"
  "index (present w) = index w"
  "current_text (present w) = current_text w"
  "label (present w) = label w"
  "(present w)\<lparr>presented := n\<rparr> = w\<lparr>presented := n\<rparr>"
  by (simp_all add: present_def)



end
